theory Spec2Isabelle
  imports Main
begin

section \<open>Data model of the artifact migrator (main.go)\<close>

text \<open>
  Go strings are byte sequences; \<^typ>\<open>string\<close> (a list of 8-bit characters) models them,
  and \<open>[]byte\<close> likewise.  The struct \<open>Asset\<close> is recursive through its field
  \<open>Children\<close>, so it is a datatype whose selectors carry the names of the Go fields.
\<close>

type_synonym bytes = string

datatype Asset = Asset
  (Type: string)
  (Leaf: bool)
  (NodeName: string)
  (Path: string)
  (Children: "Asset list")
  (RepositoryId: string)
  (LocallyAvailable: bool)
  (ArtifactTimestamp: int)
  (ArtifactUri: string)
  (PomUri: string)
  (GroupId: string)
  (ArtifactId: string)
  (Version: string)
  (Extension: string)
  (Packaing: string)

record AssetToStream =
  sourceURL :: string
  targetURL :: string
  contentType :: string

record configFile =
  SourceURL :: string
  TargetURL :: string
  SourceDownloadURL :: string
  Workers :: int

record authFile =
  SourceUser :: string
  SourcePassword :: string
  TargetUser :: string
  TargetPassword :: string

record confInfo =
  configFile :: configFile
  authFile :: authFile

text \<open>The zero values Go gives to a declared but unassigned struct.\<close>

definition zero_configFile :: configFile where
  "zero_configFile = \<lparr>SourceURL = [], TargetURL = [], SourceDownloadURL = [], Workers = 0\<rparr>"

definition zero_authFile :: authFile where
  "zero_authFile = \<lparr>SourceUser = [], SourcePassword = [], TargetUser = [], TargetPassword = []\<rparr>"

definition zero_confInfo :: confInfo where
  "zero_confInfo = \<lparr>configFile = zero_configFile, authFile = zero_authFile\<rparr>"

text \<open>
  Everything that can go wrong.  \<open>Panic\<close> is a Go runtime panic (it is not an \<open>error\<close>
  value: it unwinds the goroutine and ends the process).  \<open>TransportError url status body\<close>
  is the value built by \<open>fmt.Errorf("URL:[%s], StatusCode:[%d], [%s]", url, status, body)\<close>,
  kept structured.  The other constructors are errors handed back by library calls.
\<close>

datatype error =
    Panic string
  | FileError string
  | JsonError
  | UrlError string
  | NetError string
  | ReadError
  | TransportError string int bytes

section \<open>String primitives of the Go library used by the code\<close>

text \<open>\<open>s[1:]\<close>: the runtime checks \<open>1 \<le> len(s)\<close> and panics otherwise.\<close>

definition slice_from_1 :: "string \<Rightarrow> error + string" where
  "slice_from_1 s =
     (if 1 \<le> length s then Inr (drop 1 s)
      else Inl (Panic ''slice bounds out of range [1:0]''))"

text \<open>\<open>strings.HasSuffix(s, suffix)\<close>.\<close>

definition HasSuffix :: "string \<Rightarrow> string \<Rightarrow> bool" where
  "HasSuffix s suf \<longleftrightarrow>
     length suf \<le> length s \<and> drop (length s - length suf) s = suf"

text \<open>\<open>strings.Index(s, substr)\<close>, with \<open>None\<close> for the result \<open>-1\<close>.\<close>

fun Index :: "string \<Rightarrow> string \<Rightarrow> nat option" where
  "Index [] substr = (if substr = [] then Some 0 else None)"
| "Index (c # s) substr =
     (if take (length substr) (c # s) = substr then Some 0
      else map_option Suc (Index s substr))"

text \<open>\<open>strings.Replace(s, old, new, 1)\<close>: only the first occurrence of \<open>old\<close> is replaced.\<close>

definition Replace_1 :: "string \<Rightarrow> string \<Rightarrow> string \<Rightarrow> string" where
  "Replace_1 s old new =
     (case Index s old of
        None \<Rightarrow> s
      | Some j \<Rightarrow> take j s @ new @ drop (j + length old) s)"

section \<open>The tree queries of the Classifier/Planner\<close>

text \<open>
  \<open>hasArtifacts\<close>: the \<open>for ... range\<close> loop returns in its first iteration on both
  branches, so only the first child is ever looked at.
\<close>

function hasArtifacts :: "Asset \<Rightarrow> bool" where
  "hasArtifacts asset =
     (case Children asset of
        [] \<Rightarrow> False
      | a # _ \<Rightarrow> if Leaf a then True else hasArtifacts a)"
  by pat_completeness auto
termination
proof (relation "measure size")
  show "wf (measure (size :: Asset \<Rightarrow> nat))" by simp
next
  fix asset :: Asset and a rest
  assume "Children asset = a # rest"
  then show "(a, asset) \<in> measure size"
    by (cases asset) simp
qed

declare hasArtifacts.simps [simp del]

text \<open>
  \<open>getArtifacts\<close>: the loop over \<open>asset.Children\<close> is \<open>getArtifacts_loop\<close>, with the
  slice \<open>artifacts\<close> built so far as its accumulator.  A panic of \<open>a.Path[1:]\<close> ends
  the whole call.
\<close>

function getArtifacts :: "Asset \<Rightarrow> error + string list"
  and getArtifacts_loop :: "string list \<Rightarrow> Asset list \<Rightarrow> error + string list" where
  "getArtifacts asset = getArtifacts_loop [] (Children asset)"
| "getArtifacts_loop artifacts [] = Inr artifacts"
| "getArtifacts_loop artifacts (a # rest) =
     (if Leaf a then
        (case slice_from_1 (Path a) of
           Inl e \<Rightarrow> Inl e
         | Inr artifactURI \<Rightarrow>
             if length (PomUri a) > 0
             then getArtifacts_loop
                    (artifacts @ [artifactURI] @ [Replace_1 artifactURI ''jar'' ''pom'']) rest
             else getArtifacts_loop (artifacts @ [artifactURI]) rest)
      else
        (case getArtifacts a of
           Inl e \<Rightarrow> Inl e
         | Inr sub \<Rightarrow> getArtifacts_loop (artifacts @ sub) rest))"
  by pat_completeness auto
termination
proof (relation "measure (\<lambda>x. case x of Inl asset \<Rightarrow> Suc (size_list size (Children asset))
                                        | Inr (_, as) \<Rightarrow> size_list size as)")
qed (auto, case_tac a, auto)

text \<open>\<open>getGroups\<close>: one pass over the direct children, nothing recursive.\<close>

fun getGroups_loop :: "string list \<Rightarrow> Asset list \<Rightarrow> error + string list" where
  "getGroups_loop groups [] = Inr groups"
| "getGroups_loop groups (a # rest) =
     (if Type a = ''G'' then
        (case slice_from_1 (Path a) of
           Inl e \<Rightarrow> Inl e
         | Inr p \<Rightarrow> getGroups_loop (groups @ [p]) rest)
      else getGroups_loop groups rest)"

definition getGroups :: "Asset \<Rightarrow> error + string list" where
  "getGroups asset = getGroups_loop [] (Children asset)"

section \<open>The state of a run, the Decoder and the Classifier/Planner\<close>

text \<open>
  The state of a run.  A channel is the sequence of messages sent on it, oldest first
  (a send appends); \<open>errCh\<close> is the failure sink that \<open>main\<close> prints.  The remaining
  fields record the I/O the workers perform: lines printed, requests handed to
  \<open>client.Do\<close> (a response body is named by the position of its request in \<open>wire\<close>),
  the response bodies that have been closed, those the code has read with
  \<open>ioutil.ReadAll\<close>, and the \<open>Close\<close> calls a running \<open>streamer\<close> has deferred to
  its own return.
\<close>

datatype http_method = GET | PUT

record body =
  content :: bytes
  failAfter :: "nat option"

text \<open>
  An \<open>io.Reader\<close> handed from one call to another refers to a response body: the pair
  of the body's name and the body.
\<close>

type_synonym reader = "nat \<times> body"

record request =
  Method :: http_method
  URL :: string
  BasicAuth :: "string \<times> string"
  Header :: "string \<times> string"
  reqBody :: "reader option"

record response =
  StatusCode :: int
  Body :: body

record pipeline =
  downloadCh :: "string list"
  unmarshalCh :: "bytes list"
  processCh :: "Asset list"
  streamCh :: "AssetToStream list"
  errCh :: "error list"
  stdout :: "string list"
  wire :: "request list"
  closed :: "nat list"
  bodyRead :: "nat list"
  deferred :: "nat list"

definition empty_pipeline :: pipeline where
  "empty_pipeline =
     \<lparr>downloadCh = [], unmarshalCh = [], processCh = [], streamCh = [], errCh = [],
      stdout = [], wire = [], closed = [], bodyRead = [], deferred = []\<rparr>"

text \<open>
  One iteration of \<open>unmarshaler\<close>, for the bytes received from \<open>unmarshalCh\<close>.
  \<open>json.Unmarshal\<close> into a fresh \<open>Data\<close> is the parameter \<open>decode\<close>, which gives the
  field \<open>Asset\<close> of the decoded object.
\<close>

definition unmarshaler :: "(bytes \<Rightarrow> error + Asset) \<Rightarrow> bytes \<Rightarrow> pipeline \<Rightarrow> pipeline" where
  "unmarshaler decode data st =
     (case decode data of
        Inl err \<Rightarrow> st\<lparr>errCh := errCh st @ [err]\<rparr>
      | Inr asset \<Rightarrow> st\<lparr>processCh := processCh st @ [asset]\<rparr>)"

text \<open>The loop \<open>for _, artifact := range artifacts\<close> of \<open>processor\<close>.\<close>

fun processor_artifacts :: "confInfo \<Rightarrow> string list \<Rightarrow> pipeline \<Rightarrow> pipeline" where
  "processor_artifacts ci [] st = st"
| "processor_artifacts ci (artifact # rest) st =
     (let sURL = SourceDownloadURL (configFile ci) @ artifact;
          tURL = TargetURL (configFile ci) @ artifact;
          cType = (if HasSuffix artifact ''.pom'' then ''application/xml''
                   else ''application/java-archive'');
          assetToStream = \<lparr>sourceURL = sURL, targetURL = tURL, contentType = cType\<rparr>
      in processor_artifacts ci rest (st\<lparr>streamCh := streamCh st @ [assetToStream]\<rparr>))"

text \<open>The loop \<open>for _, g := range groups\<close> of \<open>processor\<close>.\<close>

fun processor_groups :: "confInfo \<Rightarrow> string list \<Rightarrow> pipeline \<Rightarrow> pipeline" where
  "processor_groups ci [] st = st"
| "processor_groups ci (g # rest) st =
     (let rootURL = SourceURL (configFile ci) @ g
      in processor_groups ci rest (st\<lparr>downloadCh := downloadCh st @ [rootURL]\<rparr>))"

text \<open>
  One iteration of \<open>processor\<close>, for the asset received from \<open>processCh\<close>.  The paths
  are computed before anything is sent, so a panic leaves the channels as they were.
\<close>

definition processor :: "confInfo \<Rightarrow> Asset \<Rightarrow> pipeline \<Rightarrow> error + pipeline" where
  "processor ci asset st =
     (if hasArtifacts asset then
        (case getArtifacts asset of
           Inl e \<Rightarrow> Inl e
         | Inr artifacts \<Rightarrow> Inr (processor_artifacts ci artifacts st))
      else
        (case getGroups asset of
           Inl e \<Rightarrow> Inl e
         | Inr groups \<Rightarrow> Inr (processor_groups ci groups st)))"

section \<open>HTTP: the Fetcher and the Transferer\<close>

text \<open>
  The network is a parameter.  \<open>validURL\<close> says whether \<open>http.NewRequest\<close> accepts a
  URL; \<open>roundTrip\<close> is \<open>client.Do\<close>: an error, or a response whose body is a reader.
  A body holds the bytes the peer sends and, when the connection breaks, the number of
  bytes delivered before the read fails.
\<close>

record world =
  validURL :: "string \<Rightarrow> bool"
  roundTrip :: "request \<Rightarrow> error + response"

text \<open>\<open>ioutil.ReadAll\<close>: the bytes read, and the error that stopped the read if any.\<close>

definition ReadAll :: "body \<Rightarrow> bytes \<times> error option" where
  "ReadAll b =
     (case failAfter b of
        None \<Rightarrow> (content b, None)
      | Some k \<Rightarrow> (take k (content b), Some ReadError))"

text \<open>
  \<open>httpDownload\<close>.  The deferred \<open>resp.Body.Close()\<close> runs when the function returns.
  On status 200 the error of \<open>ioutil.ReadAll\<close> is assigned to \<open>err\<close> and then
  \<open>data, nil\<close> is returned.
\<close>

definition httpDownload ::
  "world \<Rightarrow> confInfo \<Rightarrow> string \<Rightarrow> pipeline \<Rightarrow> (error + bytes) \<times> pipeline" where
  "httpDownload w ci url st =
     (if \<not> validURL w url then (Inl (UrlError url), st)
      else
        let req = \<lparr>Method = GET, URL = url,
                   BasicAuth = (SourceUser (authFile ci), SourcePassword (authFile ci)),
                   Header = (''Accept'', ''application/json''), reqBody = None\<rparr>;
            h = length (wire st);
            st1 = st\<lparr>wire := wire st @ [req]\<rparr>
        in case roundTrip w req of
             Inl e \<Rightarrow> (Inl e, st1)
           | Inr resp \<Rightarrow>
               if StatusCode resp \<noteq> 200 then
                 (case ReadAll (Body resp) of
                    (b, _) \<Rightarrow>
                      (Inl (TransportError url (StatusCode resp) b),
                       st1\<lparr>bodyRead := bodyRead st1 @ [h], closed := closed st1 @ [h]\<rparr>))
               else
                 (case ReadAll (Body resp) of
                    (data, err) \<Rightarrow>
                      (Inr data,
                       st1\<lparr>bodyRead := bodyRead st1 @ [h], closed := closed st1 @ [h]\<rparr>)))"

text \<open>One iteration of \<open>downloader\<close>, for the URL received from \<open>downloadCh\<close>.\<close>

definition downloader :: "world \<Rightarrow> confInfo \<Rightarrow> string \<Rightarrow> pipeline \<Rightarrow> pipeline" where
  "downloader w ci url st =
     (let st0 = st\<lparr>stdout := stdout st @ [''downloader url '' @ url]\<rparr>
      in case httpDownload w ci url st0 of
           (Inl err, st') \<Rightarrow> st'\<lparr>errCh := errCh st' @ [err]\<rparr>
         | (Inr data, st') \<Rightarrow> st'\<lparr>unmarshalCh := unmarshalCh st' @ [data]\<rparr>)"

text \<open>
  \<open>httpUpload\<close>.  The PUT request carries the reader it was given as its body; by the
  contract of \<open>net/http\<close> the transport closes the body of a request handed to
  \<open>client.Do\<close>, also when it reports an error (how much of it the transport reads is
  not modelled).  The response body is read only when the status is not 201; the
  deferred \<open>Close\<close> runs at the return.
\<close>

definition httpUpload ::
  "world \<Rightarrow> confInfo \<Rightarrow> string \<Rightarrow> reader \<Rightarrow> string \<Rightarrow> pipeline \<Rightarrow> error option \<times> pipeline" where
  "httpUpload w ci url rd cType st =
     (let st0 = st\<lparr>stdout := stdout st @ [''streaming TO: '' @ url]\<rparr>
      in if \<not> validURL w url then (Some (UrlError url), st0)
         else
           let req = \<lparr>Method = PUT, URL = url,
                      BasicAuth = (TargetUser (authFile ci), TargetPassword (authFile ci)),
                      Header = (''Content-Type'', cType), reqBody = Some rd\<rparr>;
               h = length (wire st0);
               st1 = st0\<lparr>wire := wire st0 @ [req], closed := closed st0 @ [fst rd]\<rparr>
           in case roundTrip w req of
                Inl e \<Rightarrow> (Some e, st1)
              | Inr resp \<Rightarrow>
                  if StatusCode resp \<noteq> 201 then
                    (case ReadAll (Body resp) of
                       (b, _) \<Rightarrow>
                         (Some (TransportError url (StatusCode resp) b),
                          st1\<lparr>bodyRead := bodyRead st1 @ [h], closed := closed st1 @ [h]\<rparr>))
                  else (None, st1\<lparr>closed := closed st1 @ [h]\<rparr>))"

text \<open>
  One iteration of \<open>streamer\<close>, for the job received from \<open>streamCh\<close>.  The status of
  the GET response is not looked at.  \<open>defer resp.Body.Close()\<close> sits inside the
  endless \<open>for\<close> loop: the call is queued for the return of \<open>streamer\<close>, so an
  iteration only adds to \<open>deferred\<close>.
\<close>

definition streamer_job :: "world \<Rightarrow> confInfo \<Rightarrow> AssetToStream \<Rightarrow> pipeline \<Rightarrow> pipeline" where
  "streamer_job w ci assetToStream st =
     (if \<not> validURL w (sourceURL assetToStream)
      then st\<lparr>errCh := errCh st @ [UrlError (sourceURL assetToStream)]\<rparr>
      else
        let req = \<lparr>Method = GET, URL = sourceURL assetToStream,
                   BasicAuth = (SourceUser (authFile ci), SourcePassword (authFile ci)),
                   Header = (''Accept'', ''application/json''), reqBody = None\<rparr>;
            h = length (wire st);
            st1 = st\<lparr>wire := wire st @ [req]\<rparr>
        in case roundTrip w req of
             Inl e \<Rightarrow> st1\<lparr>errCh := errCh st1 @ [e]\<rparr>
           | Inr resp \<Rightarrow>
               let st2 = st1\<lparr>deferred := h # deferred st1\<rparr>
               in (case httpUpload w ci (targetURL assetToStream) (h, Body resp)
                          (contentType assetToStream) st2 of
                     (Some e, st3) \<Rightarrow> st3\<lparr>errCh := errCh st3 @ [e]\<rparr>
                   | (None, st3) \<Rightarrow> st3))"

text \<open>
  The \<open>for\<close> loop of \<open>streamer\<close> on the jobs it receives, in order.  When no job is
  left the goroutine waits on the channel; it never returns, so nothing deferred runs.
\<close>

fun streamer :: "world \<Rightarrow> confInfo \<Rightarrow> AssetToStream list \<Rightarrow> pipeline \<Rightarrow> pipeline" where
  "streamer w ci [] st = st"
| "streamer w ci (job # jobs) st = streamer w ci jobs (streamer_job w ci job st)"

section \<open>Startup\<close>

text \<open>
  The file system and \<open>json.Unmarshal\<close> are parameters.  \<open>Unmarshal\<close> into a struct may
  have filled some fields when it reports an error, so it returns the struct as well.
\<close>

record startup =
  migratorConfFile :: string
  migratorAuthFile :: string
  ReadFile :: "string \<Rightarrow> error + bytes"
  Unmarshal_configFile :: "bytes \<Rightarrow> configFile \<Rightarrow> error option \<times> configFile"
  Unmarshal_authFile :: "bytes \<Rightarrow> authFile \<Rightarrow> error option \<times> authFile"

record globals =
  cf :: configFile
  af :: authFile
  ci :: confInfo

definition zero_globals :: globals where
  "zero_globals = \<lparr>cf = zero_configFile, af = zero_authFile, ci = zero_confInfo\<rparr>"

definition readFile :: "startup \<Rightarrow> string \<Rightarrow> error + bytes" where
  "readFile env filename =
     (case ReadFile env filename of Inl err \<Rightarrow> Inl err | Inr data \<Rightarrow> Inr data)"

definition processConfigAndAuthFiles :: "startup \<Rightarrow> globals \<Rightarrow> error option \<times> globals" where
  "processConfigAndAuthFiles env g =
     (let g0 = g\<lparr>cf := zero_configFile, af := zero_authFile\<rparr>
      in (case readFile env (migratorConfFile env) of
            Inl err \<Rightarrow> (Some err, g0)
          | Inr data \<Rightarrow>
              (case Unmarshal_configFile env data (cf g0) of
                 (Some err, c) \<Rightarrow> (Some err, g0\<lparr>cf := c\<rparr>)
               | (None, c) \<Rightarrow>
                   (case readFile env (migratorAuthFile env) of
                      Inl err \<Rightarrow> (Some err, g0\<lparr>cf := c\<rparr>)
                    | Inr data2 \<Rightarrow>
                        (case Unmarshal_authFile env data2 (af g0) of
                           (Some err, a) \<Rightarrow> (Some err, g0\<lparr>cf := c, af := a\<rparr>)
                         | (None, a) \<Rightarrow>
                             (None, g0\<lparr>cf := c, af := a,
                                       ci := \<lparr>configFile = c, authFile = a\<rparr>\<rparr>))))))"

text \<open>
  The spawning loop of \<open>main\<close>: each round starts one goroutine of every stage; the
  result counts the rounds.
\<close>

function spawn_workers :: "int \<Rightarrow> nat \<Rightarrow> nat" where
  "spawn_workers workers n =
     (if workers < 1 then n else spawn_workers (workers - 1) (Suc n))"
  by pat_completeness auto
termination
  by (relation "measure (\<lambda>(workers, n). nat workers)") auto

declare spawn_workers.simps [simp del]

text \<open>
  What \<open>main\<close> has done when it reaches its endless loop over \<open>errCh\<close>: either the
  process was ended with an error before that, or the stages run with some
  configuration, \<open>spawned\<close> goroutines per stage and the seeded channels.
\<close>

datatype process =
    Aborted error
  | Running (config: confInfo) (spawned: nat) (channels: pipeline)

text \<open>\<open>main\<close> calls \<open>processConfigAndAuthFiles()\<close> as a statement: the result is dropped.\<close>

definition main :: "startup \<Rightarrow> process" where
  "main env =
     (case processConfigAndAuthFiles env zero_globals of
        (_, g) \<Rightarrow>
          let workers = Workers (configFile (ci g));
              n = spawn_workers workers 0
          in Running (ci g) n
               (empty_pipeline\<lparr>downloadCh := [SourceURL (configFile (ci g))]\<rparr>))"

section \<open>Notions used to state the properties\<close>

text \<open>
  The node reached from \<open>node\<close> after \<open>k\<close> steps, each step going to the first child;
  \<open>None\<close> when a node on the way has no children.
\<close>

fun descend_first :: "nat \<Rightarrow> Asset \<Rightarrow> Asset option" where
  "descend_first 0 node = Some node"
| "descend_first (Suc k) node =
     (case Children node of [] \<Rightarrow> None | a # _ \<Rightarrow> descend_first k a)"

text \<open>
  The leaves below a node, left to right: a child marked as leaf counts itself (what is
  below a leaf is not looked at), any other child counts the leaves below it.
\<close>

fun leaf_children :: "Asset \<Rightarrow> Asset list" where
  "leaf_children (Asset t l n p cs r la ts au pu g ai v e pk) =
     concat (map (\<lambda>a. if Leaf a then [a] else leaf_children a) cs)"

text \<open>
  The paths one leaf stands for: its path without its first byte, and after it, when
  \<open>PomUri\<close> is not empty, the same with the first \<open>jar\<close> turned into \<open>pom\<close>.
\<close>

definition leaf_paths :: "Asset \<Rightarrow> string list" where
  "leaf_paths a =
     drop 1 (Path a) #
       (if PomUri a = [] then [] else [Replace_1 (drop 1 (Path a)) ''jar'' ''pom''])"

text \<open>
  The specification's wording of the same, "stripped of a leading path separator":
  a path that does not start with the separator is left as it is.
\<close>

definition strip_leading_separator :: "string \<Rightarrow> string" where
  "strip_leading_separator p = (if take 1 p = ''/'' then drop 1 p else p)"

definition spec_leaf_paths :: "Asset \<Rightarrow> string list" where
  "spec_leaf_paths a =
     strip_leading_separator (Path a) #
       (if PomUri a = [] then []
        else [Replace_1 (strip_leading_separator (Path a)) ''jar'' ''pom''])"

text \<open>The job the Planner is to build for one path.\<close>

definition transfer_job :: "confInfo \<Rightarrow> string \<Rightarrow> AssetToStream" where
  "transfer_job conf p =
     \<lparr>sourceURL = SourceDownloadURL (configFile conf) @ p,
      targetURL = TargetURL (configFile conf) @ p,
      contentType = (if \<exists>q. p = q @ ''.pom'' then ''application/xml''
                     else ''application/java-archive'')\<rparr>"

subsection \<open>Sample data\<close>

text \<open>A node as decoded from a JSON object that gives only these five fields.\<close>

definition mk_asset :: "string \<Rightarrow> bool \<Rightarrow> string \<Rightarrow> string \<Rightarrow> Asset list \<Rightarrow> Asset" where
  "mk_asset t l p pom cs = Asset t l [] p cs [] False 0 [] pom [] [] [] [] []"

definition sample_conf :: confInfo where
  "sample_conf =
     \<lparr>configFile = \<lparr>SourceURL = ''http://src/tree/'', TargetURL = ''http://dst/repo/'',
                     SourceDownloadURL = ''http://src/content/'', Workers = 2\<rparr>,
      authFile = \<lparr>SourceUser = ''su'', SourcePassword = ''sp'',
                   TargetUser = ''tu'', TargetPassword = ''tp''\<rparr>\<rparr>"

definition sample_root :: Asset where
  "sample_root =
     mk_asset ''G'' False ''/'' []
       [mk_asset ''G'' False ''/releases'' [] [], mk_asset ''A'' False ''/x'' [] []]"

definition sample_releases :: Asset where
  "sample_releases =
     mk_asset ''G'' False ''/releases'' []
       [mk_asset ''A'' True ''/releases/lib-1.0.jar'' ''/releases/lib-1.0.pom'' []]"

definition sample_empty_leaf_path :: Asset where
  "sample_empty_leaf_path = mk_asset ''G'' False ''/g'' [] [mk_asset ''A'' True [] [] []]"

definition sample_no_separator :: Asset where
  "sample_no_separator =
     mk_asset ''G'' False ''/g'' [] [mk_asset ''A'' True ''lib-1.0.jar'' [] []]"

definition sample_empty_group_path :: Asset where
  "sample_empty_group_path = mk_asset ''G'' False ''/'' [] [mk_asset ''G'' False [] [] []]"

text \<open>The request \<open>httpDownload\<close> builds for a listing URL.\<close>

definition listing_request :: "confInfo \<Rightarrow> string \<Rightarrow> request" where
  "listing_request conf url =
     \<lparr>Method = GET, URL = url,
      BasicAuth = (SourceUser (authFile conf), SourcePassword (authFile conf)),
      Header = (''Accept'', ''application/json''), reqBody = None\<rparr>"

definition sample_job :: AssetToStream where
  "sample_job =
     \<lparr>sourceURL = ''http://src/content/releases/lib-1.0.jar'',
      targetURL = ''http://dst/repo/releases/lib-1.0.jar'',
      contentType = ''application/java-archive''\<rparr>"

text \<open>A job whose target URL does not parse (the port is not a number).\<close>

definition sample_job_bad_target :: AssetToStream where
  "sample_job_bad_target =
     \<lparr>sourceURL = ''http://src/content/releases/lib-0.9.jar'',
      targetURL = ''http://dst:80a/repo/releases/lib-0.9.jar'',
      contentType = ''application/java-archive''\<rparr>"

text \<open>The source answers every GET with 404; the target accepts every PUT.\<close>

definition world_404 :: world where
  "world_404 =
     \<lparr>validURL = (\<lambda>u. True),
      roundTrip = (\<lambda>req. case Method req of
         GET \<Rightarrow> Inr \<lparr>StatusCode = 404, Body = \<lparr>content = ''Not Found'', failAfter = None\<rparr>\<rparr>
       | PUT \<Rightarrow> Inr \<lparr>StatusCode = 201, Body = \<lparr>content = [], failAfter = None\<rparr>\<rparr>)\<rparr>"

text \<open>Both servers answer with success; only the URL with the bad port is refused.\<close>

definition world_ok :: world where
  "world_ok =
     \<lparr>validURL = (\<lambda>u. u \<noteq> ''http://dst:80a/repo/releases/lib-0.9.jar''),
      roundTrip = (\<lambda>req. case Method req of
         GET \<Rightarrow> Inr \<lparr>StatusCode = 200, Body = \<lparr>content = ''archive-bytes'', failAfter = None\<rparr>\<rparr>
       | PUT \<Rightarrow> Inr \<lparr>StatusCode = 201, Body = \<lparr>content = ''created'', failAfter = None\<rparr>\<rparr>)\<rparr>"

text \<open>The source answers 200, and the connection breaks after four bytes of the body.\<close>

definition world_cut :: world where
  "world_cut =
     \<lparr>validURL = (\<lambda>u. True),
      roundTrip = (\<lambda>req.
         Inr \<lparr>StatusCode = 200, Body = \<lparr>content = ''listing-bytes'', failAfter = Some 4\<rparr>\<rparr>)\<rparr>"

text \<open>Neither file exists.\<close>

definition no_files :: startup where
  "no_files =
     \<lparr>migratorConfFile = ''./migrator-conf.json'', migratorAuthFile = ''./migrator-auth.json'',
      ReadFile = (\<lambda>f. Inl (FileError f)),
      Unmarshal_configFile = (\<lambda>d c. (None, c)),
      Unmarshal_authFile = (\<lambda>d a. (None, a))\<rparr>"

text \<open>Both files exist and neither is JSON.\<close>

definition malformed_files :: startup where
  "malformed_files =
     \<lparr>migratorConfFile = ''./migrator-conf.json'', migratorAuthFile = ''./migrator-auth.json'',
      ReadFile = (\<lambda>f. Inr ''{''),
      Unmarshal_configFile = (\<lambda>d c. (Some JsonError, c)),
      Unmarshal_authFile = (\<lambda>d a. (Some JsonError, a))\<rparr>"

section \<open>Facts about the library primitives\<close>

lemma slice_from_1_Cons: "slice_from_1 (c # p) = Inr p"
  by (simp add: slice_from_1_def)

lemma slice_from_1_Nil: "slice_from_1 [] = Inl (Panic ''slice bounds out of range [1:0]'')"
  by (simp add: slice_from_1_def)

lemma HasSuffix_iff: "HasSuffix s suf \<longleftrightarrow> (\<exists>q. s = q @ suf)"
proof
  assume "HasSuffix s suf"
  then have "s = take (length s - length suf) s @ suf"
    by (metis HasSuffix_def append_take_drop_id)
  then show "\<exists>q. s = q @ suf" ..
next
  assume "\<exists>q. s = q @ suf"
  then show "HasSuffix s suf" by (auto simp: HasSuffix_def)
qed

section \<open>hasArtifacts\<close>

lemma leaf_children_eq:
  "leaf_children node =
     concat (map (\<lambda>a. if Leaf a then [a] else leaf_children a) (Children node))"
  by (cases node) simp

lemma hasArtifacts_Nil: "Children node = [] \<Longrightarrow> \<not> hasArtifacts node"
  by (simp add: hasArtifacts.simps)

lemma hasArtifacts_Cons:
  "Children node = a # rest \<Longrightarrow> hasArtifacts node = (Leaf a \<or> hasArtifacts a)"
  by (simp add: hasArtifacts.simps)

lemma hasArtifacts_descend:
  "hasArtifacts node \<longleftrightarrow> (\<exists>k l. descend_first (Suc k) node = Some l \<and> Leaf l)"
proof (induction node rule: hasArtifacts.induct)
  case (1 asset)
  show ?case
  proof (cases "Children asset")
    case Nil
    then show ?thesis by (simp add: hasArtifacts_Nil)
  next
    case (Cons a rest)
    show ?thesis
    proof (cases "Leaf a")
      case True
      have "descend_first (Suc 0) asset = Some a" using Cons by simp
      with True have "\<exists>k l. descend_first (Suc k) asset = Some l \<and> Leaf l" by blast
      moreover have "hasArtifacts asset" using Cons True by (simp add: hasArtifacts_Cons)
      ultimately show ?thesis by simp
    next
      case False
      have eq: "hasArtifacts asset = hasArtifacts a"
        using Cons False by (simp add: hasArtifacts_Cons)
      have ih: "hasArtifacts a \<longleftrightarrow> (\<exists>k l. descend_first (Suc k) a = Some l \<and> Leaf l)"
        using "1.IH" Cons False by simp
      have "(\<exists>k l. descend_first (Suc k) asset = Some l \<and> Leaf l)
            \<longleftrightarrow> (\<exists>k l. descend_first k a = Some l \<and> Leaf l)"
        using Cons by simp
      also have "\<dots> \<longleftrightarrow> (\<exists>k l. descend_first (Suc k) a = Some l \<and> Leaf l)"
      proof
        assume "\<exists>k l. descend_first k a = Some l \<and> Leaf l"
        then obtain k l where kl: "descend_first k a = Some l" "Leaf l" by blast
        with False obtain k' where "k = Suc k'" by (cases k) auto
        with kl show "\<exists>k l. descend_first (Suc k) a = Some l \<and> Leaf l" by blast
      next
        assume "\<exists>k l. descend_first (Suc k) a = Some l \<and> Leaf l"
        then show "\<exists>k l. descend_first k a = Some l \<and> Leaf l" by blast
      qed
      finally show ?thesis using eq ih by simp
    qed
  qed
qed

text \<open>
  C4.  \<open>hasArtifacts\<close> is true exactly when walking from the node to the first child,
  then to that child's first child, and so on, arrives at a node marked as leaf after one
  step or more.  Later siblings play no part: the answer for the children \<open>a # rest\<close>
  is the answer for the single child \<open>a\<close>.  A node without children has no artifacts.
\<close>

theorem hasArtifacts_first_child_probe:
  "(hasArtifacts node \<longleftrightarrow> (\<exists>k l. descend_first (Suc k) node = Some l \<and> Leaf l))
   \<and> hasArtifacts (Asset t lf n p (a # rest) r la ts au pu g ai v e pk)
       = hasArtifacts (Asset t lf n p [a] r la ts au pu g ai v e pk)
   \<and> \<not> hasArtifacts (Asset t lf n p [] r la ts au pu g ai v e pk)"
proof (intro conjI)
  show "hasArtifacts node \<longleftrightarrow> (\<exists>k l. descend_first (Suc k) node = Some l \<and> Leaf l)"
    by (rule hasArtifacts_descend)
  show "hasArtifacts (Asset t lf n p (a # rest) r la ts au pu g ai v e pk)
       = hasArtifacts (Asset t lf n p [a] r la ts au pu g ai v e pk)"
    by (simp add: hasArtifacts_Cons)
  show "\<not> hasArtifacts (Asset t lf n p [] r la ts au pu g ai v e pk)"
    by (simp add: hasArtifacts_Nil)
qed

section \<open>getArtifacts and getGroups\<close>

lemma getArtifacts_char:
  "getArtifacts node =
     (if \<forall>l \<in> set (leaf_children node). Path l \<noteq> []
      then Inr (concat (map leaf_paths (leaf_children node)))
      else Inl (Panic ''slice bounds out of range [1:0]''))"
  and getArtifacts_loop_char:
  "getArtifacts_loop acc as =
     (if \<forall>l \<in> set (concat (map (\<lambda>a. if Leaf a then [a] else leaf_children a) as)). Path l \<noteq> []
      then Inr (acc @ concat (map leaf_paths
                  (concat (map (\<lambda>a. if Leaf a then [a] else leaf_children a) as))))
      else Inl (Panic ''slice bounds out of range [1:0]''))"
proof (induction node and acc as rule: getArtifacts_getArtifacts_loop.induct)
  case (1 asset)
  then show ?case by (simp add: leaf_children_eq [of asset])
next
  case (2 artifacts)
  then show ?case by simp
next
  case (3 artifacts a rest)
  show ?case
  proof (cases "Leaf a")
    case True
    show ?thesis
    proof (cases "Path a = []")
      case True
      with \<open>Leaf a\<close> show ?thesis by (simp add: slice_from_1_def)
    next
      case False
      then have sl: "slice_from_1 (Path a) = Inr (drop 1 (Path a))"
        by (cases "Path a") (simp_all add: slice_from_1_def)
      show ?thesis
        using "3.IH"(1,2) True False sl
        by (cases "PomUri a = []") (simp_all add: leaf_paths_def)
    qed
  next
    case False
    show ?thesis
    proof (cases "getArtifacts a")
      case (Inl e)
      with "3.IH"(3) False show ?thesis by (auto split: if_splits)
    next
      case (Inr sub)
      with "3.IH"(3,4) False show ?thesis by (auto split: if_splits)
    qed
  qed
qed

lemma length_leaf_paths:
  "length (concat (map leaf_paths ls)) = length ls + length (filter (\<lambda>l. PomUri l \<noteq> []) ls)"
  by (induction ls) (simp_all add: leaf_paths_def)

lemma spec_leaf_paths_eq:
  "take 1 (Path l) = ''/'' \<Longrightarrow> spec_leaf_paths l = leaf_paths l"
  by (simp add: spec_leaf_paths_def leaf_paths_def strip_leading_separator_def)

lemma getGroups_loop_char:
  "getGroups_loop acc as =
     (if \<forall>a \<in> set as. Type a = ''G'' \<longrightarrow> Path a \<noteq> []
      then Inr (acc @ map (\<lambda>a. drop 1 (Path a)) (filter (\<lambda>a. Type a = ''G'') as))
      else Inl (Panic ''slice bounds out of range [1:0]''))"
proof (induction as arbitrary: acc)
  case Nil
  show ?case by simp
next
  case (Cons a as)
  show ?case
  proof (cases "Type a = ''G''")
    case False
    then show ?thesis using Cons by simp
  next
    case True
    show ?thesis
    proof (cases "Path a")
      case Nil
      with True show ?thesis by (simp add: slice_from_1_def)
    next
      case (Cons c p)
      with True Cons.IH [of "acc @ [p]"] show ?thesis
        by (simp add: slice_from_1_def)
    qed
  qed
qed

lemma getGroups_char:
  "getGroups node =
     (if \<forall>a \<in> set (Children node). Type a = ''G'' \<longrightarrow> Path a \<noteq> []
      then Inr (map (\<lambda>a. drop 1 (Path a)) (filter (\<lambda>a. Type a = ''G'') (Children node)))
      else Inl (Panic ''slice bounds out of range [1:0]''))"
  unfolding getGroups_def by (simp add: getGroups_loop_char)

text \<open>
  C3, as the code has it.  When every leaf below the node (reached through children that
  are not leaves) has a non-empty path, \<open>getArtifacts\<close> returns, leaf by leaf in tree
  order, the leaf's path without its first byte and, when the leaf's \<open>PomUri\<close> is not
  empty, after it the same path with the first \<open>jar\<close> replaced by \<open>pom\<close>: one path for
  each leaf and one more for each leaf with companion metadata.  When every such path
  starts with the separator this is the path "stripped of a leading path separator".
\<close>

theorem getArtifacts_paths:
  assumes "\<forall>l \<in> set (leaf_children node). Path l \<noteq> []"
  shows "getArtifacts node = Inr (concat (map leaf_paths (leaf_children node)))
       \<and> length (concat (map leaf_paths (leaf_children node)))
          = length (leaf_children node)
            + length (filter (\<lambda>l. PomUri l \<noteq> []) (leaf_children node))
       \<and> ((\<forall>l \<in> set (leaf_children node). take 1 (Path l) = ''/'') \<longrightarrow>
           getArtifacts node = Inr (concat (map spec_leaf_paths (leaf_children node))))"
proof (intro conjI impI)
  show g: "getArtifacts node = Inr (concat (map leaf_paths (leaf_children node)))"
    unfolding getArtifacts_char using assms by simp
  show "length (concat (map leaf_paths (leaf_children node)))
          = length (leaf_children node)
            + length (filter (\<lambda>l. PomUri l \<noteq> []) (leaf_children node))"
    by (rule length_leaf_paths)
  assume "\<forall>l \<in> set (leaf_children node). take 1 (Path l) = ''/''"
  then have m: "map spec_leaf_paths (leaf_children node) = map leaf_paths (leaf_children node)"
    by (simp add: spec_leaf_paths_eq)
  show "getArtifacts node = Inr (concat (map spec_leaf_paths (leaf_children node)))"
    unfolding m by (rule g)
qed

text \<open>
  The scenario of the specification: one leaf \<open>/releases/lib-1.0.jar\<close> with companion
  metadata gives the archive path and the descriptor path.
\<close>

theorem getArtifacts_paths_witness:
  "map Path (leaf_children sample_releases) = [''/releases/lib-1.0.jar'']
   \<and> getArtifacts sample_releases = Inr [''releases/lib-1.0.jar'', ''releases/lib-1.0.pom'']"
proof -
  have lc: "leaf_children sample_releases
              = [mk_asset ''A'' True ''/releases/lib-1.0.jar'' ''/releases/lib-1.0.pom'' []]"
    by (simp add: sample_releases_def mk_asset_def)
  have h: "\<forall>l \<in> set (leaf_children sample_releases). Path l \<noteq> []"
    unfolding lc by (simp add: mk_asset_def)
  have "getArtifacts sample_releases
          = Inr (concat (map leaf_paths (leaf_children sample_releases)))"
    using getArtifacts_paths [OF h] by (rule conjunct1)
  also have "concat (map leaf_paths (leaf_children sample_releases))
          = [''releases/lib-1.0.jar'', ''releases/lib-1.0.pom'']"
    unfolding lc by (simp add: leaf_paths_def mk_asset_def Replace_1_def)
  finally have "getArtifacts sample_releases
          = Inr [''releases/lib-1.0.jar'', ''releases/lib-1.0.pom'']" .
  moreover have "map Path (leaf_children sample_releases) = [''/releases/lib-1.0.jar'']"
    unfolding lc by (simp add: mk_asset_def)
  ultimately show ?thesis by simp
qed

text \<open>
  C3 as it is worded fails twice.  A leaf with the empty path makes \<open>getArtifacts\<close> panic
  instead of returning paths; and the path \<open>lib-1.0.jar\<close>, which has no leading
  separator to strip, comes back as \<open>ib-1.0.jar\<close>.
\<close>

theorem getArtifacts_strip_counterexample:
  "getArtifacts sample_empty_leaf_path = Inl (Panic ''slice bounds out of range [1:0]'')
   \<and> getArtifacts sample_no_separator = Inr [''ib-1.0.jar'']
   \<and> getArtifacts sample_no_separator
       \<noteq> Inr (concat (map spec_leaf_paths (leaf_children sample_no_separator)))"
  by (simp add: sample_empty_leaf_path_def sample_no_separator_def mk_asset_def
      slice_from_1_def spec_leaf_paths_def strip_leading_separator_def)

text \<open>
  C9.  \<open>s[1:]\<close> drops the first byte whatever it is and panics on the empty string.
  So \<open>getArtifacts\<close> panics exactly when a leaf below the node has the empty path, and
  otherwise returns the paths without their first byte; \<open>getGroups\<close> panics exactly when
  a direct child of type \<open>G\<close> has the empty path, and otherwise returns the paths of the
  children of type \<open>G\<close> without their first byte.
\<close>

theorem strip_first_byte_or_panic:
  "slice_from_1 (c # p) = Inr p
   \<and> slice_from_1 [] = Inl (Panic ''slice bounds out of range [1:0]'')
   \<and> getArtifacts node =
       (if \<forall>l \<in> set (leaf_children node). Path l \<noteq> []
        then Inr (concat (map leaf_paths (leaf_children node)))
        else Inl (Panic ''slice bounds out of range [1:0]''))
   \<and> getGroups node =
       (if \<forall>a \<in> set (Children node). Type a = ''G'' \<longrightarrow> Path a \<noteq> []
        then Inr (map (\<lambda>a. drop 1 (Path a)) (filter (\<lambda>a. Type a = ''G'') (Children node)))
        else Inl (Panic ''slice bounds out of range [1:0]''))"
proof (intro conjI)
  show "slice_from_1 (c # p) = Inr p" by (rule slice_from_1_Cons)
  show "slice_from_1 [] = Inl (Panic ''slice bounds out of range [1:0]'')"
    by (rule slice_from_1_Nil)
  show "getArtifacts node =
       (if \<forall>l \<in> set (leaf_children node). Path l \<noteq> []
        then Inr (concat (map leaf_paths (leaf_children node)))
        else Inl (Panic ''slice bounds out of range [1:0]''))"
    by (rule getArtifacts_char)
  show "getGroups node =
       (if \<forall>a \<in> set (Children node). Type a = ''G'' \<longrightarrow> Path a \<noteq> []
        then Inr (map (\<lambda>a. drop 1 (Path a)) (filter (\<lambda>a. Type a = ''G'') (Children node)))
        else Inl (Panic ''slice bounds out of range [1:0]''))"
    by (rule getGroups_char)
qed

theorem strip_first_byte_or_panic_witness:
  "slice_from_1 ''xab'' = Inr ''ab''
   \<and> getArtifacts sample_empty_leaf_path = Inl (Panic ''slice bounds out of range [1:0]'')
   \<and> getGroups sample_empty_group_path = Inl (Panic ''slice bounds out of range [1:0]'')
   \<and> getArtifacts sample_no_separator = Inr [''ib-1.0.jar'']
   \<and> getGroups sample_root = Inr [''releases'']"
proof -
  have s: "slice_from_1 ''xab'' = Inr ''ab''"
    using strip_first_byte_or_panic [of "CHR ''x''" "''ab''" sample_root] by simp
  have a: "getArtifacts sample_empty_leaf_path = Inl (Panic ''slice bounds out of range [1:0]'')"
    using strip_first_byte_or_panic [of "CHR ''x''" "''ab''" sample_empty_leaf_path]
    by (simp add: sample_empty_leaf_path_def mk_asset_def)
  have b: "getGroups sample_empty_group_path = Inl (Panic ''slice bounds out of range [1:0]'')"
    using strip_first_byte_or_panic [of "CHR ''x''" "''ab''" sample_empty_group_path]
    by (simp add: sample_empty_group_path_def mk_asset_def)
  have c: "getArtifacts sample_no_separator = Inr [''ib-1.0.jar'']"
    using strip_first_byte_or_panic [of "CHR ''x''" "''ab''" sample_no_separator]
    by (simp add: sample_no_separator_def mk_asset_def leaf_paths_def)
  have d: "getGroups sample_root = Inr [''releases'']"
    using strip_first_byte_or_panic [of "CHR ''x''" "''ab''" sample_root]
    by (simp add: sample_root_def mk_asset_def)
  from s a b c d show ?thesis by simp
qed

section \<open>processor\<close>

lemma processor_artifacts_eq:
  "processor_artifacts conf paths st
     = st\<lparr>streamCh := streamCh st @ map (transfer_job conf) paths\<rparr>"
proof (induction paths arbitrary: st)
  case Nil
  show ?case by simp
next
  case (Cons p ps)
  show ?case
    by (simp add: Cons.IH Let_def transfer_job_def HasSuffix_iff)
qed

lemma processor_groups_eq:
  "processor_groups conf gs st
     = st\<lparr>downloadCh := downloadCh st @ map (\<lambda>g. SourceURL (configFile conf) @ g) gs\<rparr>"
proof (induction gs arbitrary: st)
  case Nil
  show ?case by simp
next
  case (Cons g gs)
  show ?case by (simp add: Cons.IH Let_def)
qed

text \<open>
  C6.  On a node with artifacts, \<open>processor\<close> sends one job for each path that
  \<open>getArtifacts\<close> collected, in order, and nothing else: the source URL is the download
  base followed by the path, the target URL the target base followed by the path, and the
  content type is \<open>application/xml\<close> when the path ends in \<open>.pom\<close> and
  \<open>application/java-archive\<close> otherwise.
\<close>

theorem processor_transfer_jobs:
  assumes "hasArtifacts node" and "getArtifacts node = Inr paths"
  shows "processor conf node st
           = Inr (st\<lparr>streamCh := streamCh st @ map (transfer_job conf) paths\<rparr>)
         \<and> length (map (transfer_job conf) paths) = length paths
         \<and> (\<forall>p. sourceURL (transfer_job conf p) = SourceDownloadURL (configFile conf) @ p
              \<and> targetURL (transfer_job conf p) = TargetURL (configFile conf) @ p
              \<and> contentType (transfer_job conf p)
                  = (if \<exists>q. p = q @ ''.pom'' then ''application/xml''
                     else ''application/java-archive''))"
  using assms by (simp add: processor_def processor_artifacts_eq transfer_job_def)

theorem processor_transfer_jobs_witness:
  "hasArtifacts sample_releases
   \<and> getArtifacts sample_releases = Inr [''releases/lib-1.0.jar'', ''releases/lib-1.0.pom'']
   \<and> processor sample_conf sample_releases empty_pipeline
       = Inr (empty_pipeline\<lparr>streamCh :=
           [\<lparr>sourceURL = ''http://src/content/releases/lib-1.0.jar'',
             targetURL = ''http://dst/repo/releases/lib-1.0.jar'',
             contentType = ''application/java-archive''\<rparr>,
            \<lparr>sourceURL = ''http://src/content/releases/lib-1.0.pom'',
             targetURL = ''http://dst/repo/releases/lib-1.0.pom'',
             contentType = ''application/xml''\<rparr>]\<rparr>)"
proof -
  have h: "hasArtifacts sample_releases"
    by (simp add: sample_releases_def mk_asset_def hasArtifacts.simps)
  have g: "getArtifacts sample_releases = Inr [''releases/lib-1.0.jar'', ''releases/lib-1.0.pom'']"
    by (simp add: sample_releases_def mk_asset_def slice_from_1_def Replace_1_def)
  have pom: "\<exists>q. ''releases/lib-1.0.pom'' = q @ ''.pom''"
    by (rule exI [of _ "''releases/lib-1.0''"]) simp
  have jar: "\<not> (\<exists>q. ''releases/lib-1.0.jar'' = q @ ''.pom'')"
    using HasSuffix_iff [of "''releases/lib-1.0.jar''" "''.pom''"] by (simp add: HasSuffix_def)
  have "processor sample_conf sample_releases empty_pipeline
          = Inr (empty_pipeline\<lparr>streamCh := streamCh empty_pipeline
                   @ map (transfer_job sample_conf)
                       [''releases/lib-1.0.jar'', ''releases/lib-1.0.pom'']\<rparr>)"
    using processor_transfer_jobs [OF h g] by (rule conjunct1)
  then show ?thesis using h g pom jar
    by (simp add: transfer_job_def sample_conf_def empty_pipeline_def)
qed

text \<open>
  C5, as the code has it.  On a node without artifacts whose children of type \<open>G\<close> all
  have a non-empty path, \<open>processor\<close> sends one fetch request for each direct child of
  type \<open>G\<close>, in order, and nothing else: the listing base URL followed by the child's
  path without its first byte.  A node without children sends nothing at all.
\<close>

theorem processor_fan_out:
  assumes "\<not> hasArtifacts node"
    and "\<forall>a \<in> set (Children node). Type a = ''G'' \<longrightarrow> Path a \<noteq> []"
  shows "processor conf node st
           = Inr (st\<lparr>downloadCh := downloadCh st
                    @ map (\<lambda>a. SourceURL (configFile conf) @ drop 1 (Path a))
                        (filter (\<lambda>a. Type a = ''G'') (Children node))\<rparr>)
         \<and> processor conf (Asset t lf n p [] r la ts au pu g ai v e pk) st = Inr st"
proof
  show "processor conf node st
           = Inr (st\<lparr>downloadCh := downloadCh st
                    @ map (\<lambda>a. SourceURL (configFile conf) @ drop 1 (Path a))
                        (filter (\<lambda>a. Type a = ''G'') (Children node))\<rparr>)"
    using assms by (simp add: processor_def getGroups_char processor_groups_eq comp_def)
  show "processor conf (Asset t lf n p [] r la ts au pu g ai v e pk) st = Inr st"
    by (simp add: processor_def getGroups_char processor_groups_eq hasArtifacts_Nil)
qed

theorem processor_fan_out_witness:
  "\<not> hasArtifacts sample_root
   \<and> map Path (filter (\<lambda>a. Type a = ''G'') (Children sample_root)) = [''/releases'']
   \<and> processor sample_conf sample_root empty_pipeline
       = Inr (empty_pipeline\<lparr>downloadCh := [''http://src/tree/releases'']\<rparr>)"
proof -
  have h: "\<not> hasArtifacts sample_root"
    by (simp add: sample_root_def mk_asset_def hasArtifacts.simps)
  have q: "\<forall>a \<in> set (Children sample_root). Type a = ''G'' \<longrightarrow> Path a \<noteq> []"
    by (simp add: sample_root_def mk_asset_def)
  have "processor sample_conf sample_root empty_pipeline
          = Inr (empty_pipeline\<lparr>downloadCh := downloadCh empty_pipeline
                   @ map (\<lambda>a. SourceURL (configFile sample_conf) @ drop 1 (Path a))
                       (filter (\<lambda>a. Type a = ''G'') (Children sample_root))\<rparr>)"
    using processor_fan_out [OF h q] by (rule conjunct1)
  then show ?thesis using h
    by (simp add: sample_root_def mk_asset_def sample_conf_def empty_pipeline_def)
qed

text \<open>
  C5 as it is worded fails twice.  A child of type \<open>G\<close> with the empty path makes the
  Planner panic before any request is sent; and for the group \<open>/releases\<close> the request
  is the base URL followed by \<open>releases\<close>, not by the group's path.
\<close>

theorem processor_fan_out_counterexample:
  "\<not> hasArtifacts sample_empty_group_path
   \<and> processor sample_conf sample_empty_group_path empty_pipeline
       = Inl (Panic ''slice bounds out of range [1:0]'')
   \<and> \<not> hasArtifacts sample_root
   \<and> processor sample_conf sample_root empty_pipeline
       = Inr (empty_pipeline\<lparr>downloadCh := [''http://src/tree/releases'']\<rparr>)
   \<and> processor sample_conf sample_root empty_pipeline
       \<noteq> Inr (empty_pipeline\<lparr>downloadCh :=
               map (\<lambda>a. SourceURL (configFile sample_conf) @ Path a)
                 (filter (\<lambda>a. Type a = ''G'') (Children sample_root))\<rparr>)"
  by (simp add: sample_empty_group_path_def sample_root_def mk_asset_def hasArtifacts.simps
      processor_def getGroups_def slice_from_1_def sample_conf_def empty_pipeline_def)

section \<open>The Fetcher\<close>

lemma downloader_status_not_ok:
  assumes "validURL w url"
    and "roundTrip w (listing_request conf url) = Inr resp"
    and "StatusCode resp \<noteq> 200"
  shows "errCh (downloader w conf url st)
           = errCh st @ [TransportError url (StatusCode resp) (fst (ReadAll (Body resp)))]"
    and "unmarshalCh (downloader w conf url st) = unmarshalCh st"
    and "wire (downloader w conf url st) = wire st @ [listing_request conf url]"
  using assms
  by (simp_all add: downloader_def httpDownload_def listing_request_def Let_def
      split: prod.splits)

lemma downloader_status_ok:
  assumes "validURL w url"
    and "roundTrip w (listing_request conf url) = Inr resp"
    and "StatusCode resp = 200"
  shows "unmarshalCh (downloader w conf url st) = unmarshalCh st @ [fst (ReadAll (Body resp))]"
    and "errCh (downloader w conf url st) = errCh st"
    and "wire (downloader w conf url st) = wire st @ [listing_request conf url]"
  using assms
  by (simp_all add: downloader_def httpDownload_def listing_request_def Let_def
      split: prod.splits)

lemma ReadAll_complete: "failAfter b = None \<Longrightarrow> ReadAll b = (content b, None)"
  by (simp add: ReadAll_def)

text \<open>
  C10.  When a listing request is answered with status 200 and the read of the body
  fails after \<open>k\<close> bytes, \<open>ioutil.ReadAll\<close> reports the error together with those
  \<open>k\<close> bytes, \<open>httpDownload\<close> returns the bytes with no error, and \<open>downloader\<close> sends
  them on to the Decoder and nothing to the failure sink.
\<close>

theorem httpDownload_discards_read_error:
  assumes "validURL w url"
    and "roundTrip w (listing_request conf url) = Inr resp"
    and "StatusCode resp = 200"
    and "failAfter (Body resp) = Some k"
  shows "ReadAll (Body resp) = (take k (content (Body resp)), Some ReadError)
       \<and> fst (httpDownload w conf url st) = Inr (take k (content (Body resp)))
       \<and> unmarshalCh (downloader w conf url st)
           = unmarshalCh st @ [take k (content (Body resp))]
       \<and> errCh (downloader w conf url st) = errCh st"
  using assms
  by (simp add: downloader_def httpDownload_def ReadAll_def listing_request_def Let_def)

theorem httpDownload_discards_read_error_witness:
  "validURL world_cut ''http://src/tree/''
   \<and> roundTrip world_cut (listing_request sample_conf ''http://src/tree/'')
       = Inr \<lparr>StatusCode = 200, Body = \<lparr>content = ''listing-bytes'', failAfter = Some 4\<rparr>\<rparr>
   \<and> fst (httpDownload world_cut sample_conf ''http://src/tree/'' empty_pipeline) = Inr ''list''
   \<and> unmarshalCh (downloader world_cut sample_conf ''http://src/tree/'' empty_pipeline)
       = [''list'']
   \<and> errCh (downloader world_cut sample_conf ''http://src/tree/'' empty_pipeline) = []"
proof -
  have v: "validURL world_cut ''http://src/tree/''" by (simp add: world_cut_def)
  have r: "roundTrip world_cut (listing_request sample_conf ''http://src/tree/'')
       = Inr \<lparr>StatusCode = 200, Body = \<lparr>content = ''listing-bytes'', failAfter = Some 4\<rparr>\<rparr>"
    by (simp add: world_cut_def)
  show ?thesis
    using httpDownload_discards_read_error [OF v r, of 4 empty_pipeline] v r
    by (simp add: empty_pipeline_def)
qed

text \<open>
  C7 at a 200 answer whose body breaks off after four bytes: the Fetcher forwards
  \<open>list\<close>, which is not the response body \<open>listing-bytes\<close>, and the failure sink stays
  empty.  (For every other answer \<open>downloader_status_not_ok\<close> and
  \<open>downloader_status_ok\<close> with \<open>ReadAll_complete\<close> give what C7 says.)
\<close>

theorem downloader_forwards_truncated_body:
  "roundTrip world_cut (listing_request sample_conf ''http://src/tree/'')
     = Inr \<lparr>StatusCode = 200, Body = \<lparr>content = ''listing-bytes'', failAfter = Some 4\<rparr>\<rparr>
   \<and> unmarshalCh (downloader world_cut sample_conf ''http://src/tree/'' empty_pipeline) = [''list'']
   \<and> errCh (downloader world_cut sample_conf ''http://src/tree/'' empty_pipeline) = []"
  by (simp add: downloader_def httpDownload_def ReadAll_def world_cut_def empty_pipeline_def
      Let_def)

section \<open>The Transferer\<close>

lemma streamer_job_status_unchecked:
  assumes "validURL w (sourceURL job)" and "validURL w (targetURL job)"
    and "roundTrip w (listing_request conf (sourceURL job)) = Inr resp"
  shows "wire (streamer_job w conf job st)
           = wire st @
             [listing_request conf (sourceURL job),
              \<lparr>Method = PUT, URL = targetURL job,
               BasicAuth = (TargetUser (authFile conf), TargetPassword (authFile conf)),
               Header = (''Content-Type'', contentType job),
               reqBody = Some (length (wire st), Body resp)\<rparr>]"
  using assms
  by (simp add: streamer_job_def httpUpload_def listing_request_def Let_def
      split: sum.splits prod.splits)

lemma streamer_job_deferred:
  "set (deferred st) \<subseteq> set (deferred (streamer_job w conf job st))"
  by (auto simp: streamer_job_def httpUpload_def Let_def split: sum.splits prod.splits option.splits)

text \<open>
  C1 at a source that answers 404: \<open>streamer\<close> goes on to PUT the body of the 404
  answer to the target, and since the target accepts it nothing reaches the failure sink.
\<close>

theorem streamer_uploads_error_page:
  "wire (streamer_job world_404 sample_conf sample_job empty_pipeline)
     = [\<lparr>Method = GET, URL = ''http://src/content/releases/lib-1.0.jar'',
         BasicAuth = (''su'', ''sp''), Header = (''Accept'', ''application/json''),
         reqBody = None\<rparr>,
        \<lparr>Method = PUT, URL = ''http://dst/repo/releases/lib-1.0.jar'',
         BasicAuth = (''tu'', ''tp''), Header = (''Content-Type'', ''application/java-archive''),
         reqBody = Some (0, \<lparr>content = ''Not Found'', failAfter = None\<rparr>)\<rparr>]
   \<and> errCh (streamer_job world_404 sample_conf sample_job empty_pipeline) = []"
  by (simp add: streamer_job_def httpUpload_def world_404_def sample_conf_def sample_job_def
      empty_pipeline_def Let_def)

text \<open>
  C8 on two jobs, the first with a target URL that does not parse.  The first job ends
  with an error from \<open>http.NewRequest\<close>; its GET response body (number 0) is never read
  and never closed, its \<open>Close\<close> stays deferred while \<open>streamer\<close> works on the second
  job.  In the second job the GET body (number 1) is closed by the transport of the PUT
  and the PUT response body (number 2) by \<open>httpUpload\<close>, which does not read it.
\<close>

theorem streamer_never_closes_source_body:
  "errCh (streamer world_ok sample_conf [sample_job_bad_target, sample_job] empty_pipeline)
     = [UrlError ''http://dst:80a/repo/releases/lib-0.9.jar'']
   \<and> map URL (wire (streamer world_ok sample_conf [sample_job_bad_target, sample_job] empty_pipeline))
       = [''http://src/content/releases/lib-0.9.jar'',
          ''http://src/content/releases/lib-1.0.jar'',
          ''http://dst/repo/releases/lib-1.0.jar'']
   \<and> closed (streamer world_ok sample_conf [sample_job_bad_target, sample_job] empty_pipeline)
       = [1, 2]
   \<and> deferred (streamer world_ok sample_conf [sample_job_bad_target, sample_job] empty_pipeline)
       = [1, 0]
   \<and> bodyRead (streamer world_ok sample_conf [sample_job_bad_target, sample_job] empty_pipeline)
       = []"
  by (simp add: streamer_job_def httpUpload_def world_ok_def sample_conf_def sample_job_def
      sample_job_bad_target_def empty_pipeline_def Let_def)

section \<open>Startup\<close>

lemma main_never_aborts: "main env \<noteq> Aborted e"
  by (simp add: main_def split: prod.splits)

lemma processConfigAndAuthFiles_error_keeps_ci:
  "processConfigAndAuthFiles env g = (Some err, g') \<Longrightarrow> ci g' = ci g"
  by (auto simp: processConfigAndAuthFiles_def Let_def
      split: sum.splits prod.splits option.splits)

lemma main_after_config_error:
  assumes "processConfigAndAuthFiles env zero_globals = (Some err, g)"
  shows "main env = Running zero_confInfo 0 (empty_pipeline\<lparr>downloadCh := [[]]\<rparr>)"
proof -
  have "ci g = zero_confInfo"
    using processConfigAndAuthFiles_error_keeps_ci [OF assms] by (simp add: zero_globals_def)
  then show ?thesis
    using assms
    by (simp add: main_def zero_confInfo_def zero_configFile_def spawn_workers.simps [of 0 0])
qed

text \<open>
  C2 with both files missing, and with both files malformed: \<open>processConfigAndAuthFiles\<close>
  returns the error, and \<open>main\<close> goes on with the zero configuration: no worker is
  spawned, the empty URL is sent to \<open>downloadCh\<close>, and \<open>main\<close> waits on \<open>errCh\<close>.
\<close>

theorem main_ignores_config_error:
  "processConfigAndAuthFiles no_files zero_globals
     = (Some (FileError ''./migrator-conf.json''), zero_globals)
   \<and> main no_files = Running zero_confInfo 0 (empty_pipeline\<lparr>downloadCh := [[]]\<rparr>)
   \<and> processConfigAndAuthFiles malformed_files zero_globals = (Some JsonError, zero_globals)
   \<and> main malformed_files = Running zero_confInfo 0 (empty_pipeline\<lparr>downloadCh := [[]]\<rparr>)"
  by (simp add: main_def processConfigAndAuthFiles_def readFile_def no_files_def
      malformed_files_def zero_globals_def zero_confInfo_def zero_configFile_def
      spawn_workers.simps [of 0 0])


end
